theory Spec2Isabelle
  imports Main "HOL-Library.Word"
begin

unbundle bit_operations_syntax

section \<open>Data model of the SUNXI PWM register interface\<close>

text \<open>
  The C types: \<open>unsigned int\<close> is a 32-bit word, \<open>__u64\<close> a 64-bit word.
\<close>

type_synonym u32 = "32 word"
type_synonym u64 = "64 word"

text \<open>
  \<open>struct sunxi_pwm_reg\<close>: the control register and the two per-channel period
  registers (\<open>unsigned int ch_period[2]\<close>).
\<close>

record sunxi_pwm_reg =
  ctrl :: u32
  ch_period :: "u32 list"

text \<open>
  Every access to the mapped register block is an effect of its own, so the state
  keeps a trace of them next to the register contents.
\<close>

datatype access = Read_ctrl | Write_ctrl u32 | Write_ch_period u32 u32

text \<open>
  The process-wide state: the global \<open>sunxi_pwm_base_address\<close> (0 until the
  mapping is established), the register block behind it, and the access trace.
\<close>

record pwm_state =
  sunxi_pwm_base_address :: u32
  reg :: sunxi_pwm_reg
  accesses :: "access list"

text \<open>
  The functions return \<open>int\<close>: 0 is \<open>Inr ()\<close>, \<open>-EPERM\<close> and \<open>-EINVAL\<close> are
  \<open>Inl\<close> values. The three remaining outcomes mark executions to which C assigns no
  behaviour (a read of the uninitialised local \<open>div\<close>, a division by zero, a shift
  or array index out of range); the state returned with them carries no meaning.
\<close>

datatype error =
    EPERM
  | EINVAL
  | Undefined_uninitialised
  | Undefined_division
  | Undefined_channel

type_synonym status = "error + unit"

text \<open>The array \<open>ch_period\<close> has exactly two elements.\<close>

definition wf_reg :: "pwm_state \<Rightarrow> bool" where
  "wf_reg s \<longleftrightarrow> length (ch_period (reg s)) = 2"

text \<open>
  \<open>sunxi_pwm_init\<close> consists of calls into the operating system (\<open>open\<close>,
  \<open>mmap\<close>, \<open>close\<close>) and is not modelled; what the other functions see of it is
  the test \<open>sunxi_pwm_base_address == 0\<close>.
\<close>

definition initialized :: "pwm_state \<Rightarrow> bool" where
  "initialized s \<longleftrightarrow> sunxi_pwm_base_address s \<noteq> 0"

section \<open>Configuration macros\<close>

text \<open>
  \<open>SUNXI_PWM_EN(ch) = (1 << 4) << (15 * ch)\<close> and its siblings. The left operand
  of the outer shift is an \<open>int\<close>, the count \<open>15 * ch\<close> an \<open>unsigned int\<close>; the shift
  is defined when the count is below 32 and the result fits an \<open>int\<close>, which
  \<open>int_shl_defined\<close> records.
\<close>

definition int_shl_defined :: "u32 \<Rightarrow> u32 \<Rightarrow> bool" where
  "int_shl_defined v ch \<longleftrightarrow>
     unat (15 * ch) < 32 \<and> unat v * 2 ^ unat (15 * ch) < 2 ^ 31"

definition SUNXI_PWM_EN :: "u32 \<Rightarrow> u32" where
  "SUNXI_PWM_EN ch = push_bit (unat (15 * ch)) (push_bit 4 1)"

definition SUNXI_PWM_ACT_STATE :: "u32 \<Rightarrow> u32" where
  "SUNXI_PWM_ACT_STATE ch = push_bit (unat (15 * ch)) (push_bit 5 1)"

definition SUNXI_PWM_CLK_GATING :: "u32 \<Rightarrow> u32" where
  "SUNXI_PWM_CLK_GATING ch = push_bit (unat (15 * ch)) (push_bit 6 1)"

definition SUNXI_PWM_PRESCALAR :: "u32 \<Rightarrow> u32 \<Rightarrow> u32" where
  "SUNXI_PWM_PRESCALAR ch prescaler = push_bit (unat (15 * ch)) prescaler"

section \<open>Register accesses\<close>

definition load_ctrl :: "pwm_state \<Rightarrow> u32 \<times> pwm_state" where
  "load_ctrl s = (ctrl (reg s), s\<lparr>accesses := accesses s @ [Read_ctrl]\<rparr>)"

definition store_ctrl :: "u32 \<Rightarrow> pwm_state \<Rightarrow> pwm_state" where
  "store_ctrl v s =
     s\<lparr>reg := (reg s)\<lparr>ctrl := v\<rparr>, accesses := accesses s @ [Write_ctrl v]\<rparr>"

definition store_ch_period :: "u32 \<Rightarrow> u32 \<Rightarrow> pwm_state \<Rightarrow> pwm_state" where
  "store_ch_period ch v s =
     s\<lparr>reg := (reg s)\<lparr>ch_period := (ch_period (reg s))[unat ch := v]\<rparr>,
       accesses := accesses s @ [Write_ch_period ch v]\<rparr>"

text \<open>\<open>reg->ctrl |= m\<close> and \<open>reg->ctrl &= m\<close>: a read followed by a write.\<close>

definition ctrl_or :: "u32 \<Rightarrow> pwm_state \<Rightarrow> pwm_state" where
  "ctrl_or m s = (case load_ctrl s of (c, s1) \<Rightarrow> store_ctrl (c OR m) s1)"

definition ctrl_and :: "u32 \<Rightarrow> pwm_state \<Rightarrow> pwm_state" where
  "ctrl_and m s = (case load_ctrl s of (c, s1) \<Rightarrow> store_ctrl (c AND m) s1)"

section \<open>Operations\<close>

text \<open>
  \<open>sunxi_pwm_set_polarity\<close>. The constant \<open>SUNXI_PWM_POLARITY_NORMAL\<close> comes from
  the header \<open>pwm.h\<close> and is taken as the parameter \<open>polarity_normal\<close>.
\<close>

definition sunxi_pwm_set_polarity ::
  "u32 \<Rightarrow> pwm_state \<Rightarrow> u32 \<Rightarrow> u32 \<Rightarrow> status \<times> pwm_state" where
  "sunxi_pwm_set_polarity polarity_normal s ch pol =
     (if sunxi_pwm_base_address s = 0 then (Inl EPERM, s)
      else if \<not> int_shl_defined (push_bit 5 1) ch then (Inl Undefined_channel, s)
      else if pol = polarity_normal
        then (Inr (), ctrl_or (SUNXI_PWM_ACT_STATE ch) s)
        else (Inr (), ctrl_and (NOT (SUNXI_PWM_ACT_STATE ch)) s))"

text \<open>The prescaler table of \<open>sunxi_pwm_set_config\<close>.\<close>

definition prescaler_table :: "u32 list" where
  "prescaler_table =
     [120, 180, 240, 360, 480, 0, 0, 0, 12000, 24000, 36000, 48000, 72000, 0, 0, 0]"

text \<open>
  The four assignments to \<open>div\<close> in the loop body: 24000000 divided by the table
  entry, times \<open>period_ns\<close>, divided by 1000000000, all in \<open>__u64\<close>.
\<close>

definition period_ticks :: "u32 \<Rightarrow> u64 \<Rightarrow> u64" where
  "period_ticks divisor period_ns =
     (((24000000 :: u64) div ucast divisor) * period_ns) div 1000000000"

text \<open>
  The search loop \<open>for (prescaler = 0; prescaler < 0x0F; prescaler++)\<close>. The local
  \<open>div\<close> is declared without an initialiser: \<open>None\<close> until the first assignment.
  The result is the value of \<open>prescaler\<close> and of \<open>div\<close> after the loop.
\<close>

function prescaler_loop :: "u32 \<Rightarrow> u64 \<Rightarrow> u64 option \<Rightarrow> u32 \<times> u64 option" where
  "prescaler_loop prescaler period_ns dv =
     (if prescaler < 0x0F then
        (if prescaler_table ! unat prescaler = 0
           then prescaler_loop (prescaler + 1) period_ns dv
         else
           (let d = period_ticks (prescaler_table ! unat prescaler) period_ns in
            if d - 1 \<le> 0xFFFF then (prescaler, Some d)
            else prescaler_loop (prescaler + 1) period_ns (Some d)))
      else (prescaler, dv))"
  by pat_completeness auto
termination
proof (relation "measure (\<lambda>(prescaler, period_ns, dv). 15 - unat prescaler)")
  show "wf (measure (\<lambda>(prescaler :: u32, period_ns :: u64, dv :: u64 option).
    15 - unat prescaler))"
    by simp
next
  fix prescaler :: u32 and period_ns :: u64 and dv :: "u64 option"
  assume "prescaler < 0x0F"
  then have "unat prescaler < 15"
    by (simp add: word_less_nat_alt)
  then have "unat (prescaler + 1) = unat prescaler + 1"
    by (simp add: unat_word_ariths)
  with \<open>unat prescaler < 15\<close>
  show "((prescaler + 1, period_ns, dv), (prescaler, period_ns, dv))
      \<in> measure (\<lambda>(prescaler, period_ns, dv). 15 - unat prescaler)"
    by simp
next
  fix prescaler :: u32 and period_ns :: u64 and dv :: "u64 option" and x :: u64
  assume "prescaler < 0x0F"
  then have "unat prescaler < 15"
    by (simp add: word_less_nat_alt)
  then have "unat (prescaler + 1) = unat prescaler + 1"
    by (simp add: unat_word_ariths)
  with \<open>unat prescaler < 15\<close>
  show "((prescaler + 1, period_ns, Some x), (prescaler, period_ns, dv))
      \<in> measure (\<lambda>(prescaler, period_ns, dv). 15 - unat prescaler)"
    by simp
qed

declare prescaler_loop.simps [simp del]

text \<open>
  \<open>sunxi_pwm_set_config\<close>. After the loop \<open>div\<close> is read (undefined if it was never
  assigned), \<open>div / period_ns\<close> is a division (undefined for \<open>period_ns = 0\<close>), and
  \<open>reg->ch_period[ch]\<close> indexes an array of two elements (undefined for other
  \<open>ch\<close>; for \<open>ch\<close> below 2 every shift of the macros is defined).
\<close>

definition sunxi_pwm_set_config ::
  "pwm_state \<Rightarrow> u32 \<Rightarrow> u64 \<Rightarrow> u64 \<Rightarrow> status \<times> pwm_state" where
  "sunxi_pwm_set_config s ch period_ns duty_ns =
     (if sunxi_pwm_base_address s = 0 then (Inl EPERM, s)
      else
        (case prescaler_loop 0 period_ns None of
           (prescaler, None) \<Rightarrow> (Inl Undefined_uninitialised, s)
         | (prescaler, Some dv) \<Rightarrow>
             if dv - 1 > 0xFFFF then (Inl EINVAL, s)
             else if period_ns = 0 then (Inl Undefined_division, s)
             else if \<not> ch < 2 then (Inl Undefined_channel, s)
             else
               (let prd = (ucast dv :: u32);
                    dty = (ucast ((dv * duty_ns) div period_ns) :: u32);
                    (c, s1) = load_ctrl s;
                    clk_gating = c AND SUNXI_PWM_CLK_GATING ch;
                    s2 = ctrl_and (NOT (SUNXI_PWM_CLK_GATING ch)) s1;
                    s3 = ctrl_and (NOT (SUNXI_PWM_PRESCALAR ch 0x0F)) s2;
                    s4 = ctrl_or (SUNXI_PWM_PRESCALAR ch prescaler) s3;
                    s5 = store_ch_period ch
                           (push_bit 16 (prd - 1) + (dty AND 0xFFFF)) s4;
                    s6 = (if clk_gating \<noteq> 0
                          then ctrl_or (SUNXI_PWM_CLK_GATING ch) s5 else s5)
                in (Inr (), s6))))"

text \<open>\<open>sunxi_pwm_enable\<close> and \<open>sunxi_pwm_disable\<close>.\<close>

definition sunxi_pwm_enable :: "pwm_state \<Rightarrow> u32 \<Rightarrow> status \<times> pwm_state" where
  "sunxi_pwm_enable s ch =
     (if sunxi_pwm_base_address s = 0 then (Inl EPERM, s)
      else if \<not> (int_shl_defined (push_bit 4 1) ch \<and> int_shl_defined (push_bit 6 1) ch)
        then (Inl Undefined_channel, s)
      else
        (let s1 = ctrl_or (SUNXI_PWM_EN ch) s;
             s2 = ctrl_or (SUNXI_PWM_CLK_GATING ch) s1
         in (Inr (), s2)))"

definition sunxi_pwm_disable :: "pwm_state \<Rightarrow> u32 \<Rightarrow> status \<times> pwm_state" where
  "sunxi_pwm_disable s ch =
     (if sunxi_pwm_base_address s = 0 then (Inl EPERM, s)
      else if \<not> (int_shl_defined (push_bit 4 1) ch \<and> int_shl_defined (push_bit 6 1) ch)
        then (Inl Undefined_channel, s)
      else
        (let s1 = ctrl_and (NOT (SUNXI_PWM_EN ch)) s;
             s2 = ctrl_and (NOT (SUNXI_PWM_CLK_GATING ch)) s1
         in (Inr (), s2)))"

section \<open>Vocabulary of the properties\<close>

text \<open>
  Entry \<open>i\<close> of the prescaler table is usable for \<open>period_ns\<close>: it is not zero and
  the tick count computed from it passes the loop's test \<open>div - 1 <= 0xFFFF\<close>.
\<close>

definition entry_fits :: "nat \<Rightarrow> u64 \<Rightarrow> bool" where
  "entry_fits i period_ns \<longleftrightarrow>
     prescaler_table ! i \<noteq> 0 \<and>
     period_ticks (prescaler_table ! i) period_ns - 1 \<le> 0xFFFF"

text \<open>The 4-bit prescaler selector of channel \<open>ch\<close> read back from a control word.\<close>

definition prescaler_field :: "u32 \<Rightarrow> u32 \<Rightarrow> u32" where
  "prescaler_field ch c = drop_bit (15 * unat ch) c AND 0x0F"

section \<open>Operations before initialisation\<close>

text \<open>
  Claim C3. In the uninitialised state (base address 0) each of set_polarity,
  set_config, enable and disable returns the not-permitted error for every channel
  and every argument, and returns the state as it was: register contents and access
  trace are unchanged, so no register was read or written.
\<close>

theorem uninitialised_operations_fail:
  "\<not> initialized s \<Longrightarrow>
     sunxi_pwm_set_polarity polarity_normal s ch pol = (Inl EPERM, s) \<and>
     sunxi_pwm_set_config s ch period_ns duty_ns = (Inl EPERM, s) \<and>
     sunxi_pwm_enable s ch = (Inl EPERM, s) \<and>
     sunxi_pwm_disable s ch = (Inl EPERM, s)"
  by (simp add: initialized_def sunxi_pwm_set_polarity_def sunxi_pwm_set_config_def
      sunxi_pwm_enable_def sunxi_pwm_disable_def)

theorem uninitialised_operations_fail_witness:
  "\<not> initialized \<lparr>sunxi_pwm_base_address = 0,
        reg = \<lparr>ctrl = 0x50, ch_period = [7, 9]\<rparr>, accesses = []\<rparr> \<and>
   sunxi_pwm_set_polarity 0
     \<lparr>sunxi_pwm_base_address = 0,
        reg = \<lparr>ctrl = 0x50, ch_period = [7, 9]\<rparr>, accesses = []\<rparr> 5 1 =
     (Inl EPERM, \<lparr>sunxi_pwm_base_address = 0,
        reg = \<lparr>ctrl = 0x50, ch_period = [7, 9]\<rparr>, accesses = []\<rparr>) \<and>
   sunxi_pwm_set_config
     \<lparr>sunxi_pwm_base_address = 0,
        reg = \<lparr>ctrl = 0x50, ch_period = [7, 9]\<rparr>, accesses = []\<rparr> 5 20000000 1500000 =
     (Inl EPERM, \<lparr>sunxi_pwm_base_address = 0,
        reg = \<lparr>ctrl = 0x50, ch_period = [7, 9]\<rparr>, accesses = []\<rparr>) \<and>
   sunxi_pwm_enable
     \<lparr>sunxi_pwm_base_address = 0,
        reg = \<lparr>ctrl = 0x50, ch_period = [7, 9]\<rparr>, accesses = []\<rparr> 5 =
     (Inl EPERM, \<lparr>sunxi_pwm_base_address = 0,
        reg = \<lparr>ctrl = 0x50, ch_period = [7, 9]\<rparr>, accesses = []\<rparr>) \<and>
   sunxi_pwm_disable
     \<lparr>sunxi_pwm_base_address = 0,
        reg = \<lparr>ctrl = 0x50, ch_period = [7, 9]\<rparr>, accesses = []\<rparr> 5 =
     (Inl EPERM, \<lparr>sunxi_pwm_base_address = 0,
        reg = \<lparr>ctrl = 0x50, ch_period = [7, 9]\<rparr>, accesses = []\<rparr>)"
proof -
  have h: "\<not> initialized \<lparr>sunxi_pwm_base_address = 0,
        reg = \<lparr>ctrl = 0x50, ch_period = [7, 9]\<rparr>, accesses = []\<rparr>"
    by (simp add: initialized_def)
  show ?thesis
    using h uninitialised_operations_fail [OF h, of 0 5 1 20000000 1500000]
    by simp
qed

section \<open>The prescaler search\<close>

text \<open>
  The loop either stops at the first usable table entry, with \<open>div\<close> holding its
  tick count, or runs through all indices below 15, and then no entry is usable and
  \<open>div\<close> holds a tick count that failed the test.
\<close>

lemma ch_cases: "(ch :: u32) < 2 \<Longrightarrow> ch = 0 \<or> ch = 1"
  by (auto simp: word_less_nat_alt word_unat_eq_iff)

lemma unat_succ_prescaler:
  "(n :: u32) < 0x0F \<Longrightarrow> unat (n + 1) = Suc (unat n)"
proof -
  assume "n < 0x0F"
  then have "unat n < 15" by (simp add: word_less_nat_alt)
  then show ?thesis by (simp add: unat_word_ariths)
qed

lemma extend_range:
  "\<not> P n \<Longrightarrow> (\<forall>j. Suc n \<le> j \<and> j < m \<longrightarrow> \<not> P j) \<Longrightarrow>
     (\<forall>j. n \<le> j \<and> j < m \<longrightarrow> \<not> P (j :: nat))"
proof (intro allI impI)
  fix j
  assume np: "\<not> P n" and rest: "\<forall>j. Suc n \<le> j \<and> j < m \<longrightarrow> \<not> P j"
    and j: "n \<le> j \<and> j < m"
  show "\<not> P j"
  proof (cases "j = n")
    case True
    with np show ?thesis by simp
  next
    case False
    with j have "Suc n \<le> j \<and> j < m" by simp
    with rest show ?thesis by blast
  qed
qed

lemma loop_break:
  "prescaler_loop n p dv = (pr, r) \<Longrightarrow> pr < 0x0F \<Longrightarrow>
     unat n \<le> unat pr \<and> entry_fits (unat pr) p \<and>
     r = Some (period_ticks (prescaler_table ! unat pr) p) \<and>
     (\<forall>j. unat n \<le> j \<and> j < unat pr \<longrightarrow> \<not> entry_fits j p)"
proof (induction n p dv rule: prescaler_loop.induct)
  case (1 n p dv)
  show ?case
  proof (cases "n < 0x0F")
    case False
    with "1.prems" show ?thesis
      by (simp add: prescaler_loop.simps [of n])
  next
    case lt: True
    note suc = unat_succ_prescaler [OF lt]
    show ?thesis
    proof (cases "prescaler_table ! unat n = 0")
      case True
      with lt "1.prems" have rec: "prescaler_loop (n + 1) p dv = (pr, r)"
        by (simp add: prescaler_loop.simps [of n])
      have nf: "\<not> entry_fits (unat n) p"
        using True by (simp add: entry_fits_def)
      from "1.IH"(1) [OF lt True rec "1.prems"(2)]
      show ?thesis
        using extend_range [of "\<lambda>j. entry_fits j p", OF nf]
        by (auto simp: suc)
    next
      case nz: False
      show ?thesis
      proof (cases "period_ticks (prescaler_table ! unat n) p - 1 \<le> 0xFFFF")
        case True
        with lt nz "1.prems" show ?thesis
          by (auto simp: prescaler_loop.simps [of n] entry_fits_def)
      next
        case False
        with lt nz "1.prems" have rec:
          "prescaler_loop (n + 1) p (Some (period_ticks (prescaler_table ! unat n) p)) = (pr, r)"
          by (simp add: prescaler_loop.simps [of n])
        have nf: "\<not> entry_fits (unat n) p"
          using False by (simp add: entry_fits_def)
        from "1.IH"(2) [OF lt nz refl False rec "1.prems"(2)]
        show ?thesis
          using extend_range [of "\<lambda>j. entry_fits j p", OF nf]
          by (auto simp: suc)
      qed
    qed
  qed
qed

lemma loop_exhaust:
  "prescaler_loop n p dv = (pr, r) \<Longrightarrow> \<not> pr < 0x0F \<Longrightarrow>
     (\<forall>j. unat n \<le> j \<and> j < 15 \<longrightarrow> \<not> entry_fits j p)"
proof (induction n p dv rule: prescaler_loop.induct)
  case (1 n p dv)
  show ?case
  proof (cases "n < 0x0F")
    case False
    then have "15 \<le> unat n" by (simp add: word_less_nat_alt)
    then show ?thesis by auto
  next
    case lt: True
    note suc = unat_succ_prescaler [OF lt]
    show ?thesis
    proof (cases "prescaler_table ! unat n = 0")
      case True
      with lt "1.prems" have rec: "prescaler_loop (n + 1) p dv = (pr, r)"
        by (simp add: prescaler_loop.simps [of n])
      have nf: "\<not> entry_fits (unat n) p"
        using True by (simp add: entry_fits_def)
      from "1.IH"(1) [OF lt True rec "1.prems"(2)]
      show ?thesis
        using extend_range [of "\<lambda>j. entry_fits j p", OF nf]
        by (auto simp: suc)
    next
      case nz: False
      show ?thesis
      proof (cases "period_ticks (prescaler_table ! unat n) p - 1 \<le> 0xFFFF")
        case True
        with lt nz "1.prems" show ?thesis
          by (auto simp: prescaler_loop.simps [of n] entry_fits_def)
      next
        case False
        with lt nz "1.prems" have rec:
          "prescaler_loop (n + 1) p (Some (period_ticks (prescaler_table ! unat n) p)) = (pr, r)"
          by (simp add: prescaler_loop.simps [of n])
        have nf: "\<not> entry_fits (unat n) p"
          using False by (simp add: entry_fits_def)
        from "1.IH"(2) [OF lt nz refl False rec "1.prems"(2)]
        show ?thesis
          using extend_range [of "\<lambda>j. entry_fits j p", OF nf]
          by (auto simp: suc)
      qed
    qed
  qed
qed

lemma loop_exhaust_div:
  "prescaler_loop n p (Some d) = (pr, r) \<Longrightarrow> \<not> pr < 0x0F \<Longrightarrow> \<not> d - 1 \<le> 0xFFFF \<Longrightarrow>
     \<exists>d'. r = Some d' \<and> \<not> d' - 1 \<le> 0xFFFF"
proof (induction n p "Some d" arbitrary: d rule: prescaler_loop.induct)
  case (1 n p)
  show ?case
  proof (cases "n < 0x0F")
    case False
    with "1.prems" show ?thesis
      by (auto simp: prescaler_loop.simps [of n])
  next
    case lt: True
    show ?thesis
    proof (cases "prescaler_table ! unat n = 0")
      case True
      with lt "1.prems" have "prescaler_loop (n + 1) p (Some d) = (pr, r)"
        by (simp add: prescaler_loop.simps [of n])
      from "1.hyps"(1) [OF lt True this "1.prems"(2,3)]
      show ?thesis .
    next
      case nz: False
      show ?thesis
      proof (cases "period_ticks (prescaler_table ! unat n) p - 1 \<le> 0xFFFF")
        case True
        with lt nz "1.prems" show ?thesis
          by (auto simp: prescaler_loop.simps [of n])
      next
        case False
        with lt nz "1.prems" have
          "prescaler_loop (n + 1) p (Some (period_ticks (prescaler_table ! unat n) p)) = (pr, r)"
          by (simp add: prescaler_loop.simps [of n])
        from "1.hyps"(2) [OF lt nz refl False this "1.prems"(2) False]
        show ?thesis .
      qed
    qed
  qed
qed

lemma loop_exhaust_start:
  assumes "prescaler_loop 0 p None = (pr, r)" and "\<not> pr < 0x0F"
  shows "\<exists>d'. r = Some d' \<and> \<not> d' - 1 \<le> 0xFFFF"
proof (cases "period_ticks 120 p - 1 \<le> 0xFFFF")
  case True
  with assms show ?thesis
    by (simp add: prescaler_loop.simps [of 0] prescaler_table_def)
next
  case False
  with assms have "prescaler_loop 1 p (Some (period_ticks 120 p)) = (pr, r)"
    by (simp add: prescaler_loop.simps [of 0] prescaler_table_def)
  from loop_exhaust_div [OF this assms(2) False] show ?thesis .
qed

section \<open>Successful and rejected configurations\<close>

lemma minus_one_not_fits: "\<not> (- 1 :: u64) \<le> 0xFFFF"
proof -
  have "(- 1 :: u64) = 0xFFFFFFFFFFFFFFFF" by simp
  then show ?thesis by (simp only:) simp
qed

lemma period_ticks_zero: "period_ticks dvs 0 = 0"
  by (simp add: period_ticks_def)

lemma entry_fits_period_nonzero: "entry_fits i p \<Longrightarrow> p \<noteq> 0"
  using minus_one_not_fits by (auto simp: entry_fits_def period_ticks_def)

lemma table_last_zero: "i < 16 \<Longrightarrow> prescaler_table ! i \<noteq> 0 \<Longrightarrow> i < 15"
proof -
  assume "i < 16" and nz: "prescaler_table ! i \<noteq> 0"
  have "prescaler_table ! 15 = 0" by (simp add: prescaler_table_def)
  with nz have "i \<noteq> 15" by auto
  with \<open>i < 16\<close> show ?thesis by simp
qed

lemma set_config_exhaust:
  assumes "sunxi_pwm_base_address s \<noteq> 0"
    and "prescaler_loop 0 p None = (pr, r)" and "\<not> pr < 0x0F"
  shows "sunxi_pwm_set_config s ch p duty = (Inl EINVAL, s)"
proof -
  from loop_exhaust_start [OF assms(2,3)]
  obtain d where "r = Some d" and "\<not> d - 1 \<le> 0xFFFF" by blast
  with assms(1,2) show ?thesis
    by (simp add: sunxi_pwm_set_config_def not_le)
qed

lemma set_config_break:
  assumes "sunxi_pwm_base_address s \<noteq> 0" and "ch < 2"
    and "prescaler_loop 0 p None = (pr, r)" and "pr < 0x0F"
  shows "sunxi_pwm_set_config s ch p duty =
    (Inr (),
     (let prd = (ucast (period_ticks (prescaler_table ! unat pr) p) :: u32);
          dty = (ucast ((period_ticks (prescaler_table ! unat pr) p * duty) div p) :: u32);
          (c, s1) = load_ctrl s;
          clk_gating = c AND SUNXI_PWM_CLK_GATING ch;
          s2 = ctrl_and (NOT (SUNXI_PWM_CLK_GATING ch)) s1;
          s3 = ctrl_and (NOT (SUNXI_PWM_PRESCALAR ch 0x0F)) s2;
          s4 = ctrl_or (SUNXI_PWM_PRESCALAR ch pr) s3;
          s5 = store_ch_period ch (push_bit 16 (prd - 1) + (dty AND 0xFFFF)) s4
      in if clk_gating \<noteq> 0 then ctrl_or (SUNXI_PWM_CLK_GATING ch) s5 else s5))"
proof -
  from loop_break [OF assms(3,4)]
  have fit: "entry_fits (unat pr) p"
    and r: "r = Some (period_ticks (prescaler_table ! unat pr) p)" by simp_all
  from fit have "period_ticks (prescaler_table ! unat pr) p - 1 \<le> 0xFFFF"
    by (simp add: entry_fits_def)
  then have nogt: "\<not> 0xFFFF < period_ticks (prescaler_table ! unat pr) p - 1"
    by (simp add: not_less)
  from fit have "p \<noteq> 0" by (rule entry_fits_period_nonzero)
  with assms(1,2,3) r nogt show ?thesis
    by (simp add: sunxi_pwm_set_config_def Let_def split: prod.splits)
qed


lemma unat_15_ch: "(ch :: u32) < 2 \<Longrightarrow> unat (15 * ch) = 15 * unat ch"
  by (auto dest: ch_cases)

lemma unat_ch_less: "(ch :: u32) < 2 \<Longrightarrow> unat ch < 2"
  by (simp add: word_less_nat_alt)

lemma EN_pow: "ch < 2 \<Longrightarrow> SUNXI_PWM_EN ch = 2 ^ (4 + 15 * unat ch)"
  by (simp add: SUNXI_PWM_EN_def unat_15_ch push_bit_eq_mult power_add)

lemma ACT_STATE_pow: "ch < 2 \<Longrightarrow> SUNXI_PWM_ACT_STATE ch = 2 ^ (5 + 15 * unat ch)"
  by (simp add: SUNXI_PWM_ACT_STATE_def unat_15_ch push_bit_eq_mult power_add)

lemma CLK_GATING_pow: "ch < 2 \<Longrightarrow> SUNXI_PWM_CLK_GATING ch = 2 ^ (6 + 15 * unat ch)"
  by (simp add: SUNXI_PWM_CLK_GATING_def unat_15_ch push_bit_eq_mult power_add)

lemma bit_EN:
  "ch < 2 \<Longrightarrow> bit (SUNXI_PWM_EN ch) n \<longleftrightarrow> n = 4 + 15 * unat ch"
  using unat_ch_less [of ch]
  by (auto simp: EN_pow bit_simps)

lemma bit_ACT_STATE:
  "ch < 2 \<Longrightarrow> bit (SUNXI_PWM_ACT_STATE ch) n \<longleftrightarrow> n = 5 + 15 * unat ch"
  using unat_ch_less [of ch]
  by (auto simp: ACT_STATE_pow bit_simps)

lemma bit_CLK_GATING:
  "ch < 2 \<Longrightarrow> bit (SUNXI_PWM_CLK_GATING ch) n \<longleftrightarrow> n = 6 + 15 * unat ch"
  using unat_ch_less [of ch]
  by (auto simp: CLK_GATING_pow bit_simps)

lemma bit_PRESCALAR:
  "ch < 2 \<Longrightarrow> bit (SUNXI_PWM_PRESCALAR ch v) n \<longleftrightarrow>
     15 * unat ch \<le> n \<and> n < 32 \<and> bit v (n - 15 * unat ch)"
  by (auto simp: SUNXI_PWM_PRESCALAR_def unat_15_ch bit_simps)

lemma bit_fifteen_int: "bit (15 :: int) k \<longleftrightarrow> k < 4"
proof -
  have "(15 :: int) = mask 4" by (simp add: mask_eq_exp_minus_1)
  then show ?thesis by (simp only: bit_mask_iff) simp
qed

lemma bit_selector: "(pr :: u32) < 0x0F \<Longrightarrow> bit pr k \<Longrightarrow> k < 4"
proof -
  assume lt: "pr < 0x0F" and b: "bit pr k"
  from lt have "unat pr < 16" by (simp add: word_less_nat_alt)
  then have "pr < 2 ^ 4" by (simp add: word_less_nat_alt)
  then have "pr AND mask 4 = pr" by (rule less_mask_eq)
  with b have "bit (pr AND mask 4) k" by simp
  then show "k < 4" by (simp add: bit_simps)
qed

lemma bit_prescaler_field:
  "bit (prescaler_field ch c) n \<longleftrightarrow> n < 4 \<and> bit c (15 * unat ch + n)"
  by (auto simp: prescaler_field_def bit_and_iff bit_drop_bit_eq bit_fifteen_int add.commute
      dest: bit_imp_le_length)

lemma ctrl_after_config_selector:
  assumes "ch < 2" and "pr < 0x0F"
  shows "prescaler_field ch
    (c AND NOT (SUNXI_PWM_CLK_GATING ch) AND NOT (SUNXI_PWM_PRESCALAR ch 0x0F)
       OR SUNXI_PWM_PRESCALAR ch pr) = pr"
proof (rule bit_eqI)
  fix n
  from unat_ch_less [OF assms(1)] have m: "n < 4 \<Longrightarrow> 15 * unat ch + n < 32" by simp
  show "bit (prescaler_field ch
    (c AND NOT (SUNXI_PWM_CLK_GATING ch) AND NOT (SUNXI_PWM_PRESCALAR ch 0x0F)
       OR SUNXI_PWM_PRESCALAR ch pr)) n = bit pr n"
  proof (cases "n < 4")
    case True
    with m assms(1) show ?thesis
      by (simp add: bit_prescaler_field bit_and_iff bit_or_iff bit_not_iff
          bit_PRESCALAR bit_CLK_GATING bit_fifteen_int)
  next
    case False
    with bit_selector [OF assms(2), of n] show ?thesis
      by (auto simp: bit_prescaler_field)
  qed
qed

lemma ctrl_after_config_selector_gated:
  assumes "ch < 2" and "pr < 0x0F"
  shows "prescaler_field ch
    (c AND NOT (SUNXI_PWM_CLK_GATING ch) AND NOT (SUNXI_PWM_PRESCALAR ch 0x0F)
       OR SUNXI_PWM_PRESCALAR ch pr OR SUNXI_PWM_CLK_GATING ch) = pr"
proof (rule bit_eqI)
  fix n
  from unat_ch_less [OF assms(1)] have m: "n < 4 \<Longrightarrow> 15 * unat ch + n < 32" by simp
  show "bit (prescaler_field ch
    (c AND NOT (SUNXI_PWM_CLK_GATING ch) AND NOT (SUNXI_PWM_PRESCALAR ch 0x0F)
       OR SUNXI_PWM_PRESCALAR ch pr OR SUNXI_PWM_CLK_GATING ch)) n = bit pr n"
  proof (cases "n < 4")
    case True
    with m assms(1) show ?thesis
      by (simp add: bit_prescaler_field bit_and_iff bit_or_iff bit_not_iff
          bit_PRESCALAR bit_CLK_GATING bit_fifteen_int)
  next
    case False
    with bit_selector [OF assms(2), of n] show ?thesis
      by (auto simp: bit_prescaler_field)
  qed
qed

lemma config_state_fields:
  fixes c1 c2 c3 c4 v :: u32
  shows "ctrl (reg (store_ctrl v s)) = v"
    and "ch_period (reg (store_ctrl v s)) = ch_period (reg s)"
    and "sunxi_pwm_base_address (store_ctrl v s) = sunxi_pwm_base_address s"
    and "ctrl (reg (store_ch_period ch v s)) = ctrl (reg s)"
    and "ch_period (reg (store_ch_period ch v s)) = (ch_period (reg s))[unat ch := v]"
    and "sunxi_pwm_base_address (store_ch_period ch v s) = sunxi_pwm_base_address s"
    and "fst (load_ctrl s) = ctrl (reg s)"
    and "ctrl (reg (snd (load_ctrl s))) = ctrl (reg s)"
    and "ch_period (reg (snd (load_ctrl s))) = ch_period (reg s)"
    and "sunxi_pwm_base_address (snd (load_ctrl s)) = sunxi_pwm_base_address s"
  by (simp_all add: store_ctrl_def store_ch_period_def load_ctrl_def)

lemma ctrl_or_fields:
  "ctrl (reg (ctrl_or m s)) = ctrl (reg s) OR m"
  "ch_period (reg (ctrl_or m s)) = ch_period (reg s)"
  "sunxi_pwm_base_address (ctrl_or m s) = sunxi_pwm_base_address s"
  by (simp_all add: ctrl_or_def store_ctrl_def load_ctrl_def)

lemma ctrl_and_fields:
  "ctrl (reg (ctrl_and m s)) = ctrl (reg s) AND m"
  "ch_period (reg (ctrl_and m s)) = ch_period (reg s)"
  "sunxi_pwm_base_address (ctrl_and m s) = sunxi_pwm_base_address s"
  by (simp_all add: ctrl_and_def store_ctrl_def load_ctrl_def)

lemma set_config_break_fields:
  assumes "sunxi_pwm_base_address s \<noteq> 0" and "ch < 2"
    and "prescaler_loop 0 p None = (pr, r)" and "pr < 0x0F"
  shows "fst (sunxi_pwm_set_config s ch p duty) = Inr ()"
    and "ctrl (reg (snd (sunxi_pwm_set_config s ch p duty))) =
      (if ctrl (reg s) AND SUNXI_PWM_CLK_GATING ch \<noteq> 0
       then ctrl (reg s) AND NOT (SUNXI_PWM_CLK_GATING ch)
              AND NOT (SUNXI_PWM_PRESCALAR ch 0x0F)
              OR SUNXI_PWM_PRESCALAR ch pr OR SUNXI_PWM_CLK_GATING ch
       else ctrl (reg s) AND NOT (SUNXI_PWM_CLK_GATING ch)
              AND NOT (SUNXI_PWM_PRESCALAR ch 0x0F)
              OR SUNXI_PWM_PRESCALAR ch pr)"
    and "ch_period (reg (snd (sunxi_pwm_set_config s ch p duty))) =
      (ch_period (reg s))[unat ch :=
         push_bit 16 (ucast (period_ticks (prescaler_table ! unat pr) p) - 1) +
         (ucast ((period_ticks (prescaler_table ! unat pr) p * duty) div p) AND 0xFFFF)]"
    and "sunxi_pwm_base_address (snd (sunxi_pwm_set_config s ch p duty)) =
      sunxi_pwm_base_address s"
  by (simp_all add: set_config_break [OF assms] Let_def split_beta
      config_state_fields ctrl_or_fields ctrl_and_fields and.assoc or.assoc)

lemma ex_below_16:
  "(\<exists>i<16. P i) \<longleftrightarrow>
     P 0 \<or> P 1 \<or> P 2 \<or> P 3 \<or> P 4 \<or> P 5 \<or> P 6 \<or> P 7 \<or>
     P 8 \<or> P 9 \<or> P 10 \<or> P 11 \<or> P 12 \<or> P 13 \<or> P 14 \<or> P (15 :: nat)"
proof -
  have "i < 16 \<longleftrightarrow> i \<in> {0, 1, 2, 3, 4, 5, 6, 7, 8, 9, 10, 11, 12, 13, 14, 15}"
    for i :: nat
    unfolding insert_iff empty_iff by presburger
  then show ?thesis by (simp only: insert_iff empty_iff) blast
qed

text \<open>
  With a usable table entry the loop stops at the least usable index, and the
  registers are written from the tick count of that entry.
\<close>

lemma set_config_first_fit:
  assumes "initialized s" and "wf_reg s" and "ch < 2"
    and "\<exists>i<16. entry_fits i period_ns"
  shows "\<exists>k<16. entry_fits k period_ns \<and> (\<forall>j<k. \<not> entry_fits j period_ns) \<and>
    (\<exists>s'. sunxi_pwm_set_config s ch period_ns duty_ns = (Inr (), s') \<and>
       prescaler_field ch (ctrl (reg s')) = of_nat k \<and>
       ch_period (reg s') ! unat ch =
         push_bit 16 (ucast (period_ticks (prescaler_table ! k) period_ns) - 1) +
         (ucast ((period_ticks (prescaler_table ! k) period_ns * duty_ns) div period_ns)
            AND 0xFFFF))"
proof -
  obtain pr r where loop: "prescaler_loop 0 period_ns None = (pr, r)"
    by (cases "prescaler_loop 0 period_ns None")
  from assms(1) have base: "sunxi_pwm_base_address s \<noteq> 0"
    by (simp add: initialized_def)
  have lt: "pr < 0x0F"
  proof (rule ccontr)
    assume nlt: "\<not> pr < 0x0F"
    from assms(4) obtain i where "i < 16" and fit: "entry_fits i period_ns" by blast
    then have "i < 15" using table_last_zero [of i] by (simp add: entry_fits_def)
    with loop_exhaust [OF loop nlt] fit show False by simp
  qed
  from loop_break [OF loop lt]
  have fit: "entry_fits (unat pr) period_ns"
    and least: "\<forall>j<unat pr. \<not> entry_fits j period_ns" by simp_all
  from lt have k: "unat pr < 16" by (simp add: word_less_nat_alt)
  note f = set_config_break_fields [OF base assms(3) loop lt, of duty_ns]
  have sel: "prescaler_field ch
      (ctrl (reg (snd (sunxi_pwm_set_config s ch period_ns duty_ns)))) = of_nat (unat pr)"
    by (simp add: f(2) ctrl_after_config_selector [OF assms(3) lt]
        ctrl_after_config_selector_gated [OF assms(3) lt])
  from assms(2,3) have "unat ch < length (ch_period (reg s))"
    by (simp add: wf_reg_def word_less_nat_alt)
  then have per: "ch_period (reg (snd (sunxi_pwm_set_config s ch period_ns duty_ns))) ! unat ch =
      push_bit 16 (ucast (period_ticks (prescaler_table ! unat pr) period_ns) - 1) +
      (ucast ((period_ticks (prescaler_table ! unat pr) period_ns * duty_ns) div period_ns)
         AND 0xFFFF)"
    by (simp add: f(3))
  have "sunxi_pwm_set_config s ch period_ns duty_ns =
      (Inr (), snd (sunxi_pwm_set_config s ch period_ns duty_ns))"
    using f(1) by (simp add: prod_eq_iff)
  with sel per have "\<exists>s'. sunxi_pwm_set_config s ch period_ns duty_ns = (Inr (), s') \<and>
       prescaler_field ch (ctrl (reg s')) = of_nat (unat pr) \<and>
       ch_period (reg s') ! unat ch =
         push_bit 16 (ucast (period_ticks (prescaler_table ! unat pr) period_ns) - 1) +
         (ucast ((period_ticks (prescaler_table ! unat pr) period_ns * duty_ns) div period_ns)
            AND 0xFFFF)"
    by blast
  with k fit least show ?thesis by blast
qed

text \<open>
  Claim C1. In an initialised state with channel 0 or 1: if some non-zero entry of
  the prescaler table gives a tick count
  \<open>ticks = (24000000 / divisor) * period_ns / 1000000000\<close> (integer division, in
  64 bits) with \<open>ticks - 1 \<le> 65535\<close>, then set_config succeeds, the index \<open>k\<close> it
  selects is the smallest index of such an entry, \<open>k\<close> is what the channel's 4-bit
  prescaler field holds afterwards, and the channel's period register is written
  with those ticks of entry \<open>k\<close> and the duty ticks \<open>ticks * duty_ns / period_ns\<close>
  computed from them (packed as \<open>ticks - 1\<close> above the low 16 bits of the duty
  ticks). The tick formula is written out in the statement.
\<close>

theorem set_config_selects_first_fit:
  assumes "initialized s" and "wf_reg s" and "ch < 2"
    and "\<exists>i<16. prescaler_table ! i \<noteq> 0 \<and>
      ((24000000 :: u64) div ucast (prescaler_table ! i)) * period_ns div 1000000000 - 1
        \<le> 0xFFFF"
  shows "\<exists>k<16. prescaler_table ! k \<noteq> 0 \<and>
      ((24000000 :: u64) div ucast (prescaler_table ! k)) * period_ns div 1000000000 - 1
        \<le> 0xFFFF \<and>
    (\<forall>j<k. prescaler_table ! j \<noteq> 0 \<longrightarrow>
       \<not> ((24000000 :: u64) div ucast (prescaler_table ! j)) * period_ns div 1000000000 - 1
         \<le> 0xFFFF) \<and>
    (\<exists>s'. sunxi_pwm_set_config s ch period_ns duty_ns = (Inr (), s') \<and>
       prescaler_field ch (ctrl (reg s')) = of_nat k \<and>
       ch_period (reg s') ! unat ch =
         push_bit 16
           (ucast (((24000000 :: u64) div ucast (prescaler_table ! k)) * period_ns
              div 1000000000) - 1) +
         (ucast ((((24000000 :: u64) div ucast (prescaler_table ! k)) * period_ns
              div 1000000000) * duty_ns div period_ns) AND 0xFFFF))"
proof -
  from assms(4) have "\<exists>i<16. entry_fits i period_ns"
    by (simp add: entry_fits_def period_ticks_def)
  from set_config_first_fit [OF assms(1-3) this, of duty_ns]
  show ?thesis
    unfolding entry_fits_def period_ticks_def by blast
qed

lemma long_period_loop: "prescaler_loop 0 10000000000 None = (8, Some 20000)"
  by (simp add: prescaler_loop.simps [of 0] prescaler_loop.simps [of 1]
      prescaler_loop.simps [of 2] prescaler_loop.simps [of 3] prescaler_loop.simps [of 4]
      prescaler_loop.simps [of 5] prescaler_loop.simps [of 6] prescaler_loop.simps [of 7]
      prescaler_loop.simps [of 8] prescaler_table_def period_ticks_def)

theorem set_config_selects_first_fit_witness:
  "initialized \<lparr>sunxi_pwm_base_address = 0x1000,
        reg = \<lparr>ctrl = 0x200000, ch_period = [0, 0]\<rparr>, accesses = []\<rparr> \<and>
   wf_reg \<lparr>sunxi_pwm_base_address = 0x1000,
        reg = \<lparr>ctrl = 0x200000, ch_period = [0, 0]\<rparr>, accesses = []\<rparr> \<and>
   (1 :: u32) < 2 \<and>
   prescaler_table ! 8 = 12000 \<and>
   ((24000000 :: u64) div ucast (12000 :: u32)) * 10000000000 div 1000000000 = 20000 \<and>
   (20000 :: u64) - 1 \<le> 0xFFFF \<and>
   \<not> (\<exists>j<8. prescaler_table ! j \<noteq> 0 \<and>
      ((24000000 :: u64) div ucast (prescaler_table ! j)) * 10000000000 div 1000000000 - 1
        \<le> 0xFFFF) \<and>
   (20000 :: u64) * 2500000000 div 10000000000 = 5000 \<and>
   sunxi_pwm_set_config \<lparr>sunxi_pwm_base_address = 0x1000,
        reg = \<lparr>ctrl = 0x200000, ch_period = [0, 0]\<rparr>, accesses = []\<rparr>
      1 10000000000 2500000000 =
     (Inr (), \<lparr>sunxi_pwm_base_address = 0x1000,
        reg = \<lparr>ctrl = 0x240000, ch_period = [0, 0x4E1F1388]\<rparr>,
        accesses = [Read_ctrl, Read_ctrl, Write_ctrl 0, Read_ctrl, Write_ctrl 0,
          Read_ctrl, Write_ctrl 0x40000, Write_ch_period 1 0x4E1F1388, Read_ctrl,
          Write_ctrl 0x240000]\<rparr>) \<and>
   prescaler_field 1 0x240000 = 8 \<and>
   (0x4E1F1388 :: u32) = push_bit 16 (20000 - 1) + (5000 AND 0xFFFF)"
proof -
  have h1: "initialized \<lparr>sunxi_pwm_base_address = 0x1000,
        reg = \<lparr>ctrl = 0x200000, ch_period = [0, 0]\<rparr>, accesses = []\<rparr>"
    by (simp add: initialized_def)
  have h2: "wf_reg \<lparr>sunxi_pwm_base_address = 0x1000,
        reg = \<lparr>ctrl = 0x200000, ch_period = [0, 0]\<rparr>, accesses = []\<rparr>"
    by (simp add: wf_reg_def)
  have h3: "(1 :: u32) < 2" by simp
  have "prescaler_table ! 8 \<noteq> 0 \<and>
      ((24000000 :: u64) div ucast (prescaler_table ! 8)) * 10000000000 div 1000000000 - 1
        \<le> 0xFFFF"
    by (simp add: prescaler_table_def)
  then have h4: "\<exists>i<16. prescaler_table ! i \<noteq> 0 \<and>
      ((24000000 :: u64) div ucast (prescaler_table ! i)) * 10000000000 div 1000000000 - 1
        \<le> 0xFFFF"
    by (intro exI [of _ 8]) simp
  have below: "j < 8 \<longleftrightarrow> j \<in> {0, 1, 2, 3, 4, 5, 6, 7}" for j :: nat
    unfolding insert_iff empty_iff by presburger
  have ex8: "(\<exists>j<8. P j) \<longleftrightarrow>
      P 0 \<or> P 1 \<or> P 2 \<or> P 3 \<or> P 4 \<or> P 5 \<or> P 6 \<or> P (7 :: nat)" for P
    by (simp only: below insert_iff empty_iff) blast
  have least: "\<not> (\<exists>j<8. prescaler_table ! j \<noteq> 0 \<and>
      ((24000000 :: u64) div ucast (prescaler_table ! j)) * 10000000000 div 1000000000 - 1
        \<le> 0xFFFF)"
    by (simp add: ex8 prescaler_table_def)
  have run: "sunxi_pwm_set_config \<lparr>sunxi_pwm_base_address = 0x1000,
        reg = \<lparr>ctrl = 0x200000, ch_period = [0, 0]\<rparr>, accesses = []\<rparr>
      1 10000000000 2500000000 =
     (Inr (), \<lparr>sunxi_pwm_base_address = 0x1000,
        reg = \<lparr>ctrl = 0x240000, ch_period = [0, 0x4E1F1388]\<rparr>,
        accesses = [Read_ctrl, Read_ctrl, Write_ctrl 0, Read_ctrl, Write_ctrl 0,
          Read_ctrl, Write_ctrl 0x40000, Write_ch_period 1 0x4E1F1388, Read_ctrl,
          Write_ctrl 0x240000]\<rparr>)"
    by (simp add: sunxi_pwm_set_config_def long_period_loop Let_def load_ctrl_def store_ctrl_def
        store_ch_period_def ctrl_or_def ctrl_and_def SUNXI_PWM_CLK_GATING_def
        SUNXI_PWM_PRESCALAR_def)
  have rest: "prescaler_table ! 8 = 12000"
      "((24000000 :: u64) div ucast (12000 :: u32)) * 10000000000 div 1000000000 = 20000"
      "(20000 :: u64) - 1 \<le> 0xFFFF"
      "(20000 :: u64) * 2500000000 div 10000000000 = 5000"
      "prescaler_field 1 0x240000 = 8"
      "(0x4E1F1388 :: u32) = push_bit 16 (20000 - 1) + (5000 AND 0xFFFF)"
    by (simp_all add: prescaler_table_def prescaler_field_def)
  from set_config_selects_first_fit [OF h1 h2 h3 h4, of 2500000000] h1 h2 h3 least run rest
  show ?thesis by (intro conjI)
qed

lemma set_config_no_fit:
  assumes "initialized s" and "\<not> (\<exists>i<16. entry_fits i period_ns)"
  shows "sunxi_pwm_set_config s ch period_ns duty_ns = (Inl EINVAL, s)"
proof -
  obtain pr r where loop: "prescaler_loop 0 period_ns None = (pr, r)"
    by (cases "prescaler_loop 0 period_ns None")
  from assms(1) have base: "sunxi_pwm_base_address s \<noteq> 0"
    by (simp add: initialized_def)
  have nlt: "\<not> pr < 0x0F"
  proof
    assume lt: "pr < 0x0F"
    then have "unat pr < 16" by (simp add: word_less_nat_alt)
    moreover from loop_break [OF loop lt] have "entry_fits (unat pr) period_ns" by simp
    ultimately show False using assms(2) by blast
  qed
  from set_config_exhaust [OF base loop nlt] show ?thesis .
qed

text \<open>
  Claim C2. In an initialised state: if no non-zero entry of the prescaler table
  gives a tick count with \<open>ticks - 1 \<le> 65535\<close>, set_config returns the
  invalid-argument error and the state it returns is the state it was given: the
  control register, both period registers and the access trace are unchanged. This
  holds for every channel argument, in particular for channels 0 and 1.
\<close>

theorem set_config_rejects_without_fit:
  assumes "initialized s" and "\<not> (\<exists>i<16. entry_fits i period_ns)"
  shows "sunxi_pwm_set_config s ch period_ns duty_ns = (Inl EINVAL, s)"
  using assms by (rule set_config_no_fit)

theorem set_config_rejects_without_fit_witness:
  "initialized \<lparr>sunxi_pwm_base_address = 0x1000,
        reg = \<lparr>ctrl = 0x50, ch_period = [3, 4]\<rparr>, accesses = []\<rparr> \<and>
   \<not> (\<exists>i<16. entry_fits i 1000000000000) \<and>
   sunxi_pwm_set_config \<lparr>sunxi_pwm_base_address = 0x1000,
        reg = \<lparr>ctrl = 0x50, ch_period = [3, 4]\<rparr>, accesses = []\<rparr>
      0 1000000000000 500000000000 =
     (Inl EINVAL, \<lparr>sunxi_pwm_base_address = 0x1000,
        reg = \<lparr>ctrl = 0x50, ch_period = [3, 4]\<rparr>, accesses = []\<rparr>)"
proof -
  have h1: "initialized \<lparr>sunxi_pwm_base_address = 0x1000,
        reg = \<lparr>ctrl = 0x50, ch_period = [3, 4]\<rparr>, accesses = []\<rparr>"
    by (simp add: initialized_def)
  have h2: "\<not> (\<exists>i<16. entry_fits i 1000000000000)"
    by (simp add: ex_below_16 entry_fits_def prescaler_table_def period_ticks_def)
  from set_config_rejects_without_fit [OF h1 h2, of 0 500000000000] h1 h2
  show ?thesis by (intro conjI)
qed

section \<open>Clock gating across a reconfiguration\<close>

lemma gating_test:
  "ch < 2 \<Longrightarrow> c AND SUNXI_PWM_CLK_GATING ch \<noteq> 0 \<longleftrightarrow> bit c (6 + 15 * unat ch)"
  by (simp add: CLK_GATING_pow and_exp_eq_0_iff_not_bit)

lemma set_config_success_break:
  assumes "sunxi_pwm_base_address s \<noteq> 0"
    and "sunxi_pwm_set_config s ch p duty = (Inr (), s')"
    and "prescaler_loop 0 p None = (pr, r)"
  shows "pr < 0x0F"
proof (rule ccontr)
  assume "\<not> pr < 0x0F"
  from set_config_exhaust [OF assms(1,3) this, of ch duty] assms(2)
  show False by simp
qed

text \<open>
  Claim C4. In an initialised state with channel 0 or 1: after a successful
  set_config the channel's clock-gating bit (bit \<open>6 + 15 * ch\<close>, the bit of
  \<open>SUNXI_PWM_CLK_GATING(ch)\<close>) has the value it had before the call.
\<close>

theorem set_config_preserves_clock_gating:
  assumes "initialized s" and "ch < 2"
    and "sunxi_pwm_set_config s ch period_ns duty_ns = (Inr (), s')"
  shows "bit (ctrl (reg s')) (6 + 15 * unat ch) = bit (ctrl (reg s)) (6 + 15 * unat ch) \<and>
    ctrl (reg s') AND SUNXI_PWM_CLK_GATING ch = ctrl (reg s) AND SUNXI_PWM_CLK_GATING ch"
proof -
  obtain pr r where loop: "prescaler_loop 0 period_ns None = (pr, r)"
    by (cases "prescaler_loop 0 period_ns None")
  from assms(1) have base: "sunxi_pwm_base_address s \<noteq> 0"
    by (simp add: initialized_def)
  from set_config_success_break [OF base assms(3) loop] have lt: "pr < 0x0F" .
  from bit_selector [OF lt, of 6] have pr6: "\<not> bit pr 6" by auto
  from assms(3) have s': "s' = snd (sunxi_pwm_set_config s ch period_ns duty_ns)" by simp
  note f = set_config_break_fields(2) [OF base assms(2) loop lt, of duty_ns]
  have b: "bit (ctrl (reg s')) (6 + 15 * unat ch) = bit (ctrl (reg s)) (6 + 15 * unat ch)"
    using assms(2) pr6
    by (simp add: s' f gating_test bit_and_iff bit_or_iff bit_not_iff
        bit_PRESCALAR bit_CLK_GATING)
  have "ctrl (reg s') AND SUNXI_PWM_CLK_GATING ch = ctrl (reg s) AND SUNXI_PWM_CLK_GATING ch"
  proof (rule bit_eqI)
    fix n
    show "bit (ctrl (reg s') AND SUNXI_PWM_CLK_GATING ch) n =
        bit (ctrl (reg s) AND SUNXI_PWM_CLK_GATING ch) n"
      using b assms(2) by (auto simp: bit_and_iff bit_CLK_GATING)
  qed
  with b show ?thesis by simp
qed

theorem set_config_preserves_clock_gating_witness:
  "initialized \<lparr>sunxi_pwm_base_address = 0x1000,
        reg = \<lparr>ctrl = 0x4F, ch_period = [0, 0]\<rparr>, accesses = []\<rparr> \<and>
   (0 :: u32) < 2 \<and>
   sunxi_pwm_set_config \<lparr>sunxi_pwm_base_address = 0x1000,
        reg = \<lparr>ctrl = 0x4F, ch_period = [0, 0]\<rparr>, accesses = []\<rparr> 0 1000000 250000 =
     (Inr (), \<lparr>sunxi_pwm_base_address = 0x1000,
        reg = \<lparr>ctrl = 0x40, ch_period = [0xC70032, 0]\<rparr>,
        accesses = [Read_ctrl, Read_ctrl, Write_ctrl 0x0F, Read_ctrl, Write_ctrl 0,
          Read_ctrl, Write_ctrl 0, Write_ch_period 0 0xC70032, Read_ctrl,
          Write_ctrl 0x40]\<rparr>) \<and>
   bit (0x40 :: u32) (6 + 15 * unat (0 :: u32)) = bit (0x4F :: u32) (6 + 15 * unat (0 :: u32)) \<and>
   (0x40 :: u32) AND SUNXI_PWM_CLK_GATING 0 = 0x4F AND SUNXI_PWM_CLK_GATING 0"
proof -
  have h1: "initialized \<lparr>sunxi_pwm_base_address = 0x1000,
        reg = \<lparr>ctrl = 0x4F, ch_period = [0, 0]\<rparr>, accesses = []\<rparr>"
    by (simp add: initialized_def)
  have h2: "(0 :: u32) < 2" by simp
  have loop: "prescaler_loop 0 1000000 None = (0, Some 200)"
    by (simp add: prescaler_loop.simps [of 0] prescaler_table_def period_ticks_def)
  have h3: "sunxi_pwm_set_config \<lparr>sunxi_pwm_base_address = 0x1000,
        reg = \<lparr>ctrl = 0x4F, ch_period = [0, 0]\<rparr>, accesses = []\<rparr> 0 1000000 250000 =
     (Inr (), \<lparr>sunxi_pwm_base_address = 0x1000,
        reg = \<lparr>ctrl = 0x40, ch_period = [0xC70032, 0]\<rparr>,
        accesses = [Read_ctrl, Read_ctrl, Write_ctrl 0x0F, Read_ctrl, Write_ctrl 0,
          Read_ctrl, Write_ctrl 0, Write_ch_period 0 0xC70032, Read_ctrl,
          Write_ctrl 0x40]\<rparr>)"
    by (simp add: sunxi_pwm_set_config_def loop Let_def load_ctrl_def store_ctrl_def
        store_ch_period_def ctrl_or_def ctrl_and_def SUNXI_PWM_CLK_GATING_def
        SUNXI_PWM_PRESCALAR_def)
  from set_config_preserves_clock_gating [OF h1 h2 h3] h1 h2 h3
  show ?thesis by simp
qed

section \<open>Polarity, enable and disable\<close>

lemma shl_defined:
  assumes "ch < 2"
  shows "int_shl_defined 16 ch" and "int_shl_defined 32 ch" and "int_shl_defined 64 ch"
  using ch_cases [OF assms] by (auto simp: int_shl_defined_def)

text \<open>
  Claim C5. In an initialised state, for channel 0 or 1 and every polarity value,
  set_polarity succeeds; every bit of the control register other than the channel's
  active-state bit \<open>5 + 15 * ch\<close> keeps its value, and both period registers are
  unchanged. The active-state bit itself is set exactly when the polarity argument
  equals \<open>SUNXI_PWM_POLARITY_NORMAL\<close>.
\<close>

theorem set_polarity_changes_only_polarity_bit:
  assumes "initialized s" and "ch < 2"
  shows "\<exists>s'. sunxi_pwm_set_polarity polarity_normal s ch pol = (Inr (), s') \<and>
    (\<forall>n. n \<noteq> 5 + 15 * unat ch \<longrightarrow> bit (ctrl (reg s')) n = bit (ctrl (reg s)) n) \<and>
    (bit (ctrl (reg s')) (5 + 15 * unat ch) \<longleftrightarrow> pol = polarity_normal) \<and>
    ch_period (reg s') = ch_period (reg s)"
proof -
  from assms(1) have base: "sunxi_pwm_base_address s \<noteq> 0"
    by (simp add: initialized_def)
  show ?thesis
  proof (cases "pol = polarity_normal")
    case True
    with base assms(2) show ?thesis
      by (simp add: sunxi_pwm_set_polarity_def shl_defined ctrl_or_fields
          bit_or_iff bit_ACT_STATE)
  next
    case False
    with base assms(2) show ?thesis
      by (auto simp: sunxi_pwm_set_polarity_def shl_defined ctrl_and_fields
          bit_and_iff bit_not_iff bit_ACT_STATE dest: bit_imp_le_length)
  qed
qed

theorem set_polarity_changes_only_polarity_bit_witness:
  "initialized \<lparr>sunxi_pwm_base_address = 0x1000,
        reg = \<lparr>ctrl = 0x300050, ch_period = [5, 6]\<rparr>, accesses = []\<rparr> \<and>
   (1 :: u32) < 2 \<and>
   (\<exists>s'. sunxi_pwm_set_polarity 0 \<lparr>sunxi_pwm_base_address = 0x1000,
        reg = \<lparr>ctrl = 0x300050, ch_period = [5, 6]\<rparr>, accesses = []\<rparr> 1 1 = (Inr (), s') \<and>
    (\<forall>n. n \<noteq> 5 + 15 * unat (1 :: u32) \<longrightarrow>
       bit (ctrl (reg s')) n = bit (0x300050 :: u32) n) \<and>
    (bit (ctrl (reg s')) (5 + 15 * unat (1 :: u32)) \<longleftrightarrow> (1 :: u32) = 0) \<and>
    ch_period (reg s') = [5, 6])"
proof -
  have h1: "initialized \<lparr>sunxi_pwm_base_address = 0x1000,
        reg = \<lparr>ctrl = 0x300050, ch_period = [5, 6]\<rparr>, accesses = []\<rparr>"
    by (simp add: initialized_def)
  have h2: "(1 :: u32) < 2" by simp
  from set_polarity_changes_only_polarity_bit [OF h1 h2, of 0 1] h1 h2
  show ?thesis by simp
qed

lemma enable_fields:
  assumes "sunxi_pwm_base_address s \<noteq> 0" and "ch < 2"
  shows "fst (sunxi_pwm_enable s ch) = Inr ()"
    and "ctrl (reg (snd (sunxi_pwm_enable s ch))) =
      ctrl (reg s) OR SUNXI_PWM_EN ch OR SUNXI_PWM_CLK_GATING ch"
    and "ch_period (reg (snd (sunxi_pwm_enable s ch))) = ch_period (reg s)"
    and "sunxi_pwm_base_address (snd (sunxi_pwm_enable s ch)) = sunxi_pwm_base_address s"
  using assms
  by (simp_all add: sunxi_pwm_enable_def shl_defined Let_def ctrl_or_fields or.assoc)

lemma disable_fields:
  assumes "sunxi_pwm_base_address s \<noteq> 0" and "ch < 2"
  shows "fst (sunxi_pwm_disable s ch) = Inr ()"
    and "ctrl (reg (snd (sunxi_pwm_disable s ch))) =
      ctrl (reg s) AND NOT (SUNXI_PWM_EN ch) AND NOT (SUNXI_PWM_CLK_GATING ch)"
    and "ch_period (reg (snd (sunxi_pwm_disable s ch))) = ch_period (reg s)"
    and "sunxi_pwm_base_address (snd (sunxi_pwm_disable s ch)) = sunxi_pwm_base_address s"
  using assms
  by (simp_all add: sunxi_pwm_disable_def shl_defined Let_def ctrl_and_fields and.assoc)

text \<open>
  Claim C8, as amended. In an initialised state with channel 0 or 1: enable succeeds
  and sets the channel's enable bit \<open>4 + 15 * ch\<close> and clock-gating bit
  \<open>6 + 15 * ch\<close>; disable (after that enable, or on the state itself) succeeds and
  leaves both bits cleared. Neither call changes any other bit of the control
  register nor any period register. The two bits are therefore back at their values
  from before the enable call exactly when both were clear then.
\<close>

theorem enable_disable_clears_enable_and_gating:
  assumes "initialized s" and "ch < 2"
  shows "\<exists>s1 s2 s3.
    sunxi_pwm_enable s ch = (Inr (), s1) \<and>
    sunxi_pwm_disable s1 ch = (Inr (), s2) \<and>
    sunxi_pwm_disable s ch = (Inr (), s3) \<and>
    bit (ctrl (reg s1)) (4 + 15 * unat ch) \<and> bit (ctrl (reg s1)) (6 + 15 * unat ch) \<and>
    \<not> bit (ctrl (reg s2)) (4 + 15 * unat ch) \<and> \<not> bit (ctrl (reg s2)) (6 + 15 * unat ch) \<and>
    \<not> bit (ctrl (reg s3)) (4 + 15 * unat ch) \<and> \<not> bit (ctrl (reg s3)) (6 + 15 * unat ch) \<and>
    (\<forall>n. n \<noteq> 4 + 15 * unat ch \<and> n \<noteq> 6 + 15 * unat ch \<longrightarrow>
       bit (ctrl (reg s1)) n = bit (ctrl (reg s)) n \<and>
       bit (ctrl (reg s2)) n = bit (ctrl (reg s)) n \<and>
       bit (ctrl (reg s3)) n = bit (ctrl (reg s)) n) \<and>
    ch_period (reg s1) = ch_period (reg s) \<and>
    ch_period (reg s2) = ch_period (reg s) \<and>
    ch_period (reg s3) = ch_period (reg s)"
proof -
  from assms(1) have base: "sunxi_pwm_base_address s \<noteq> 0"
    by (simp add: initialized_def)
  note e = enable_fields [OF base assms(2)]
  from e(4) base have base1: "sunxi_pwm_base_address (snd (sunxi_pwm_enable s ch)) \<noteq> 0"
    by simp
  note d1 = disable_fields [OF base1 assms(2)]
  note d = disable_fields [OF base assms(2)]
  have "sunxi_pwm_enable s ch = (Inr (), snd (sunxi_pwm_enable s ch))"
    using e(1) by (simp add: prod_eq_iff)
  moreover have "sunxi_pwm_disable (snd (sunxi_pwm_enable s ch)) ch =
      (Inr (), snd (sunxi_pwm_disable (snd (sunxi_pwm_enable s ch)) ch))"
    using d1(1) by (simp add: prod_eq_iff)
  moreover have "sunxi_pwm_disable s ch = (Inr (), snd (sunxi_pwm_disable s ch))"
    using d(1) by (simp add: prod_eq_iff)
  moreover have "bit (ctrl (reg (snd (sunxi_pwm_enable s ch)))) (4 + 15 * unat ch)"
      "bit (ctrl (reg (snd (sunxi_pwm_enable s ch)))) (6 + 15 * unat ch)"
    using assms(2) by (simp_all add: e(2) bit_or_iff bit_EN bit_CLK_GATING)
  moreover have
      "\<not> bit (ctrl (reg (snd (sunxi_pwm_disable (snd (sunxi_pwm_enable s ch)) ch))))
          (4 + 15 * unat ch)"
      "\<not> bit (ctrl (reg (snd (sunxi_pwm_disable (snd (sunxi_pwm_enable s ch)) ch))))
          (6 + 15 * unat ch)"
      "\<not> bit (ctrl (reg (snd (sunxi_pwm_disable s ch)))) (4 + 15 * unat ch)"
      "\<not> bit (ctrl (reg (snd (sunxi_pwm_disable s ch)))) (6 + 15 * unat ch)"
    using assms(2) by (simp_all add: d1(2) d(2) bit_and_iff bit_not_iff bit_EN bit_CLK_GATING)
  moreover have "\<forall>n. n \<noteq> 4 + 15 * unat ch \<and> n \<noteq> 6 + 15 * unat ch \<longrightarrow>
       bit (ctrl (reg (snd (sunxi_pwm_enable s ch)))) n = bit (ctrl (reg s)) n \<and>
       bit (ctrl (reg (snd (sunxi_pwm_disable (snd (sunxi_pwm_enable s ch)) ch)))) n =
         bit (ctrl (reg s)) n \<and>
       bit (ctrl (reg (snd (sunxi_pwm_disable s ch)))) n = bit (ctrl (reg s)) n"
    using assms(2)
    by (auto simp: e(2) d1(2) d(2) bit_and_iff bit_or_iff bit_not_iff bit_EN bit_CLK_GATING
        dest: bit_imp_le_length)
  moreover have "ch_period (reg (snd (sunxi_pwm_enable s ch))) = ch_period (reg s)"
      "ch_period (reg (snd (sunxi_pwm_disable (snd (sunxi_pwm_enable s ch)) ch))) =
         ch_period (reg s)"
      "ch_period (reg (snd (sunxi_pwm_disable s ch))) = ch_period (reg s)"
    by (simp_all add: e(3) d1(3) d(3))
  ultimately show ?thesis by blast
qed

text \<open>
  Claim C8 as stated fails: with channel 0 enabled and gated before the calls
  (control register \<open>0x50\<close>), enable followed by disable leaves the enable bit and
  the clock-gating bit cleared, not at their values from before the enable call.
\<close>

theorem enable_disable_does_not_restore:
  "bit (ctrl (reg \<lparr>sunxi_pwm_base_address = 0x1000,
        reg = \<lparr>ctrl = 0x50, ch_period = [0, 0]\<rparr>, accesses = []\<rparr>)) 4 \<and>
   bit (ctrl (reg \<lparr>sunxi_pwm_base_address = 0x1000,
        reg = \<lparr>ctrl = 0x50, ch_period = [0, 0]\<rparr>, accesses = []\<rparr>)) 6 \<and>
   fst (sunxi_pwm_enable \<lparr>sunxi_pwm_base_address = 0x1000,
        reg = \<lparr>ctrl = 0x50, ch_period = [0, 0]\<rparr>, accesses = []\<rparr> 0) = Inr () \<and>
   fst (sunxi_pwm_disable (snd (sunxi_pwm_enable \<lparr>sunxi_pwm_base_address = 0x1000,
        reg = \<lparr>ctrl = 0x50, ch_period = [0, 0]\<rparr>, accesses = []\<rparr> 0)) 0) = Inr () \<and>
   ctrl (reg (snd (sunxi_pwm_disable (snd (sunxi_pwm_enable \<lparr>sunxi_pwm_base_address = 0x1000,
        reg = \<lparr>ctrl = 0x50, ch_period = [0, 0]\<rparr>, accesses = []\<rparr> 0)) 0))) = 0 \<and>
   \<not> bit (ctrl (reg (snd (sunxi_pwm_disable (snd (sunxi_pwm_enable
        \<lparr>sunxi_pwm_base_address = 0x1000,
        reg = \<lparr>ctrl = 0x50, ch_period = [0, 0]\<rparr>, accesses = []\<rparr> 0)) 0)))) 4 \<and>
   \<not> bit (ctrl (reg (snd (sunxi_pwm_disable (snd (sunxi_pwm_enable
        \<lparr>sunxi_pwm_base_address = 0x1000,
        reg = \<lparr>ctrl = 0x50, ch_period = [0, 0]\<rparr>, accesses = []\<rparr> 0)) 0)))) 6"
  by (simp add: sunxi_pwm_enable_def sunxi_pwm_disable_def int_shl_defined_def Let_def
      ctrl_or_def ctrl_and_def load_ctrl_def store_ctrl_def
      SUNXI_PWM_EN_def SUNXI_PWM_CLK_GATING_def)


theorem enable_disable_clears_enable_and_gating_witness:
  "initialized \<lparr>sunxi_pwm_base_address = 0x1000,
        reg = \<lparr>ctrl = 0x30002A, ch_period = [1, 2]\<rparr>, accesses = []\<rparr> \<and>
   (0 :: u32) < 2 \<and>
   (\<exists>s1 s2 s3.
    sunxi_pwm_enable \<lparr>sunxi_pwm_base_address = 0x1000,
        reg = \<lparr>ctrl = 0x30002A, ch_period = [1, 2]\<rparr>, accesses = []\<rparr> 0 = (Inr (), s1) \<and>
    sunxi_pwm_disable s1 0 = (Inr (), s2) \<and>
    sunxi_pwm_disable \<lparr>sunxi_pwm_base_address = 0x1000,
        reg = \<lparr>ctrl = 0x30002A, ch_period = [1, 2]\<rparr>, accesses = []\<rparr> 0 = (Inr (), s3) \<and>
    ctrl (reg s1) = 0x30007A \<and> ctrl (reg s2) = 0x30002A \<and> ctrl (reg s3) = 0x30002A \<and>
    ch_period (reg s1) = [1, 2] \<and> ch_period (reg s2) = [1, 2] \<and>
    ch_period (reg s3) = [1, 2])"
proof -
  have h1: "initialized \<lparr>sunxi_pwm_base_address = 0x1000,
        reg = \<lparr>ctrl = 0x30002A, ch_period = [1, 2]\<rparr>, accesses = []\<rparr>"
    by (simp add: initialized_def)
  have h2: "(0 :: u32) < 2" by simp
  from enable_disable_clears_enable_and_gating [OF h1 h2] h1 h2
  show ?thesis
    by (simp add: sunxi_pwm_enable_def sunxi_pwm_disable_def int_shl_defined_def Let_def
      ctrl_or_def ctrl_and_def load_ctrl_def store_ctrl_def
      SUNXI_PWM_EN_def SUNXI_PWM_CLK_GATING_def)
qed

section \<open>Tick arithmetic\<close>

lemma period_ticks_unat:
  assumes "(24000000 div unat d) * unat p < 2 ^ 64"
  shows "unat (period_ticks d p) = (24000000 div unat d) * unat p div 1000000000"
proof -
  have "unat d < 2 ^ LENGTH(32)" by (rule unsigned_less)
  then have "unat d < 2 ^ 64" by simp
  then have d: "unat (ucast d :: u64) = unat d"
    by (simp add: unsigned_ucast_eq take_bit_nat_eq_self)
  have q: "unat ((24000000 :: u64) div ucast d) = 24000000 div unat d"
    by (simp add: unat_div d)
  from assms have "unat ((24000000 :: u64) div ucast d) * unat p < 2 ^ LENGTH(64)"
    by (simp add: q)
  then have "unat (((24000000 :: u64) div ucast d) * p) = (24000000 div unat d) * unat p"
    by (simp add: unat_mult_lem [THEN iffD1] q)
  then show ?thesis
    by (simp add: period_ticks_def unat_div)
qed

lemma all_below_16:
  "(\<forall>i<16. P i) \<longleftrightarrow>
     P 0 \<and> P 1 \<and> P 2 \<and> P 3 \<and> P 4 \<and> P 5 \<and> P 6 \<and> P 7 \<and>
     P 8 \<and> P 9 \<and> P 10 \<and> P 11 \<and> P 12 \<and> P 13 \<and> P 14 \<and> P (15 :: nat)"
  using ex_below_16 [of "\<lambda>i. \<not> P i"] by blast

lemma table_entries_at_least_120:
  "\<forall>i<16. prescaler_table ! i \<noteq> 0 \<longrightarrow> 120 \<le> unat (prescaler_table ! i)"
  by (simp add: all_below_16 prescaler_table_def)

lemma period_ticks_exact_for_table:
  assumes "i < 16" and "prescaler_table ! i \<noteq> 0" and "unat p \<le> 92233720368547"
  shows "unat (period_ticks (prescaler_table ! i) p) =
    (24000000 div unat (prescaler_table ! i)) * unat p div 1000000000"
proof -
  from assms(1,2) table_entries_at_least_120 have "120 \<le> unat (prescaler_table ! i)"
    by blast
  then have "24000000 div unat (prescaler_table ! i) \<le> 24000000 div 120"
    by (intro div_le_mono2) simp_all
  then have "24000000 div unat (prescaler_table ! i) \<le> 200000" by simp
  from this assms(3)
  have "(24000000 div unat (prescaler_table ! i)) * unat p \<le> 200000 * 92233720368547"
    by (rule mult_le_mono)
  then have "(24000000 div unat (prescaler_table ! i)) * unat p < 2 ^ 64" by simp
  then show ?thesis by (rule period_ticks_unat)
qed

text \<open>
  Claim C9, as amended. For a non-zero divisor and a period with
  \<open>period_ns * (24000000 / divisor) < 2^64\<close>, the tick count that set_config computes
  in \<open>__u64\<close> is the exact integer \<open>period_ns * (24000000 / divisor) / 1000000000\<close>.
  The largest factor of the table is \<open>24000000 / 120 = 200000\<close>, so this covers
  every period up to \<open>92233720368547\<close> ns.
\<close>

theorem period_ticks_exact_without_overflow:
  "divisor \<noteq> 0 \<Longrightarrow> unat period_ns * (24000000 div unat divisor) < 2 ^ 64 \<Longrightarrow>
     unat (period_ticks divisor period_ns) =
       unat period_ns * (24000000 div unat divisor) div 1000000000"
  using period_ticks_unat [of divisor period_ns] by (simp add: mult.commute)

theorem period_ticks_exact_without_overflow_witness:
  "(120 :: u32) \<noteq> 0 \<and>
   unat (20000000 :: u64) * (24000000 div unat (120 :: u32)) < 2 ^ 64 \<and>
   unat (period_ticks 120 20000000) =
     unat (20000000 :: u64) * (24000000 div unat (120 :: u32)) div 1000000000 \<and>
   unat (period_ticks 120 20000000) = 4000"
proof -
  have h: "unat (20000000 :: u64) * (24000000 div unat (120 :: u32)) < 2 ^ 64" by simp
  have nz: "(120 :: u32) \<noteq> 0" by simp
  from period_ticks_exact_without_overflow [OF nz h] nz h show ?thesis by simp
qed

text \<open>
  Claim C9 as stated fails: the product \<open>(24000000 / divisor) * period_ns\<close> wraps
  around for long periods. At divisor 120 (table index 0) and a period of \<open>10^14\<close> ns
  the code computes 1553255926 ticks where the exact value is 20000000000.
\<close>

theorem period_ticks_wraps:
  "prescaler_table ! 0 = 120 \<and>
   unat (period_ticks 120 100000000000000) = 1553255926 \<and>
   unat (100000000000000 :: u64) * (24000000 div unat (120 :: u32)) div 1000000000
     = 20000000000 \<and>
   unat (period_ticks 120 100000000000000) \<noteq>
     unat (100000000000000 :: u64) * (24000000 div unat (120 :: u32)) div 1000000000"
  by (simp add: period_ticks_def prescaler_table_def)


lemma short_period_ticks:
  assumes "120 \<le> unat d" and "p < 5000"
  shows "period_ticks d p = 0"
proof -
  from assms(2) have p: "unat p < 5000" by (simp add: word_less_nat_alt)
  from assms(1) have "24000000 div unat d \<le> 24000000 div 120"
    by (intro div_le_mono2) simp_all
  then have q: "24000000 div unat d \<le> 200000" by simp
  from p have "unat p \<le> 4999" by simp
  with q have "(24000000 div unat d) * unat p \<le> 200000 * 4999"
    by (rule mult_le_mono)
  then have small: "(24000000 div unat d) * unat p < 1000000000" by simp
  then have "(24000000 div unat d) * unat p < 2 ^ 64" by simp
  from period_ticks_unat [OF this] small have "unat (period_ticks d p) = 0" by simp
  then show ?thesis by (simp add: unat_eq_0)
qed

lemma zero_ticks_do_not_fit:
  assumes "\<forall>i<16. prescaler_table ! i \<noteq> 0 \<longrightarrow> period_ticks (prescaler_table ! i) p = 0"
  shows "\<not> (\<exists>i<16. entry_fits i p)"
proof
  assume "\<exists>i<16. entry_fits i p"
  then obtain i where "i < 16" and fit: "entry_fits i p" by blast
  with assms have "period_ticks (prescaler_table ! i) p = 0"
    by (simp add: entry_fits_def)
  with fit minus_one_not_fits show False by (simp add: entry_fits_def)
qed

text \<open>
  Claim C10. In an initialised state: a period below 5000 ns (so also 0) gives a
  tick count of 0 at every non-zero table entry, and whenever every non-zero table
  entry gives 0 ticks set_config returns the invalid-argument error with the state
  unchanged. The outcome of set_config is never the division by \<open>period_ns = 0\<close>:
  for a period of 0 the function has returned before it reaches the duty
  computation.
\<close>

theorem set_config_rejects_short_period:
  assumes "initialized s"
  shows "(period_ns < 5000 \<longrightarrow>
       (\<forall>i<16. prescaler_table ! i \<noteq> 0 \<longrightarrow>
          period_ticks (prescaler_table ! i) period_ns = 0)) \<and>
    ((\<forall>i<16. prescaler_table ! i \<noteq> 0 \<longrightarrow>
          period_ticks (prescaler_table ! i) period_ns = 0) \<longrightarrow>
       sunxi_pwm_set_config s ch period_ns duty_ns = (Inl EINVAL, s)) \<and>
    sunxi_pwm_set_config s ch 0 duty_ns = (Inl EINVAL, s) \<and>
    fst (sunxi_pwm_set_config s ch period_ns duty_ns) \<noteq> Inl Undefined_division"
proof -
  have a: "period_ns < 5000 \<longrightarrow>
       (\<forall>i<16. prescaler_table ! i \<noteq> 0 \<longrightarrow>
          period_ticks (prescaler_table ! i) period_ns = 0)"
    using table_entries_at_least_120 short_period_ticks by blast
  have b: "sunxi_pwm_set_config s ch p duty_ns = (Inl EINVAL, s)"
    if "\<forall>i<16. prescaler_table ! i \<noteq> 0 \<longrightarrow> period_ticks (prescaler_table ! i) p = 0"
    for p
    using set_config_no_fit [OF assms zero_ticks_do_not_fit [OF that]] .
  have z: "sunxi_pwm_set_config s ch 0 duty_ns = (Inl EINVAL, s)"
    by (rule b) (simp add: period_ticks_zero)
  have "fst (sunxi_pwm_set_config s ch period_ns duty_ns) \<noteq> Inl Undefined_division"
  proof (cases "period_ns = 0")
    case True
    with z show ?thesis by simp
  next
    case False
    then show ?thesis
      by (simp add: sunxi_pwm_set_config_def Let_def split_beta
          split: prod.splits option.splits)
  qed
  with a b z show ?thesis by blast
qed


theorem set_config_rejects_short_period_witness:
  "initialized \<lparr>sunxi_pwm_base_address = 0x1000,
        reg = \<lparr>ctrl = 0x50, ch_period = [3, 4]\<rparr>, accesses = []\<rparr> \<and>
   (4999 :: u64) < 5000 \<and>
   \<not> (\<exists>i<16. prescaler_table ! i \<noteq> 0 \<and>
          period_ticks (prescaler_table ! i) 4999 \<noteq> 0) \<and>
   sunxi_pwm_set_config \<lparr>sunxi_pwm_base_address = 0x1000,
        reg = \<lparr>ctrl = 0x50, ch_period = [3, 4]\<rparr>, accesses = []\<rparr> 1 4999 1000 =
     (Inl EINVAL, \<lparr>sunxi_pwm_base_address = 0x1000,
        reg = \<lparr>ctrl = 0x50, ch_period = [3, 4]\<rparr>, accesses = []\<rparr>) \<and>
   sunxi_pwm_set_config \<lparr>sunxi_pwm_base_address = 0x1000,
        reg = \<lparr>ctrl = 0x50, ch_period = [3, 4]\<rparr>, accesses = []\<rparr> 1 0 1000 =
     (Inl EINVAL, \<lparr>sunxi_pwm_base_address = 0x1000,
        reg = \<lparr>ctrl = 0x50, ch_period = [3, 4]\<rparr>, accesses = []\<rparr>)"
proof -
  have h1: "initialized \<lparr>sunxi_pwm_base_address = 0x1000,
        reg = \<lparr>ctrl = 0x50, ch_period = [3, 4]\<rparr>, accesses = []\<rparr>"
    by (simp add: initialized_def)
  have h2: "(4999 :: u64) < 5000" by simp
  from set_config_rejects_short_period [OF h1, of 4999 1 1000] h1 h2
  show ?thesis by blast
qed

section \<open>The servo example and the register layout\<close>

lemma servo_loop: "prescaler_loop 0 20000000 None = (0, Some 4000)"
  by (simp add: prescaler_loop.simps [of 0] prescaler_table_def period_ticks_def)

text \<open>
  Claim C6, as amended. For a period of 20000000 ns and a duty of 1500000 ns in an
  initialised state, channel 0 or 1: divisor 120 (table index 0, clock 200 kHz)
  gives 4000 ticks, which passes the 16-bit test, so set_config succeeds with
  prescaler index 0, the smallest index that fits, and does not advance to a larger
  divisor. The duty ticks are \<open>4000 * 1500000 / 20000000 = 300\<close>, and the period
  register is written with 3999 above 300.
\<close>

theorem set_config_servo_example:
  assumes "initialized s" and "wf_reg s" and "ch < 2"
  shows "period_ticks (prescaler_table ! 0) 20000000 = 4000 \<and>
    entry_fits 0 20000000 \<and>
    (4000 * 1500000) div 20000000 = (300 :: u64) \<and>
    (\<exists>s'. sunxi_pwm_set_config s ch 20000000 1500000 = (Inr (), s') \<and>
       prescaler_field ch (ctrl (reg s')) = 0 \<and>
       ch_period (reg s') ! unat ch = push_bit 16 (4000 - 1) + (300 AND 0xFFFF))"
proof -
  from assms(1) have base: "sunxi_pwm_base_address s \<noteq> 0"
    by (simp add: initialized_def)
  have lt: "(0 :: u32) < 0x0F" by simp
  have t: "period_ticks (prescaler_table ! 0) 20000000 = 4000"
    by (simp add: prescaler_table_def period_ticks_def)
  have fit: "entry_fits 0 20000000"
    by (simp add: entry_fits_def prescaler_table_def period_ticks_def)
  note f = set_config_break_fields [OF base assms(3) servo_loop lt, of 1500000]
  have sel: "prescaler_field ch
      (ctrl (reg (snd (sunxi_pwm_set_config s ch 20000000 1500000)))) = 0"
    by (simp add: f(2) ctrl_after_config_selector [OF assms(3) lt]
        ctrl_after_config_selector_gated [OF assms(3) lt])
  from assms(2,3) have "unat ch < length (ch_period (reg s))"
    by (simp add: wf_reg_def word_less_nat_alt)
  then have per: "ch_period (reg (snd (sunxi_pwm_set_config s ch 20000000 1500000))) ! unat ch =
      push_bit 16 (4000 - 1) + (300 AND 0xFFFF)"
    by (simp add: f(3) t)
  have "sunxi_pwm_set_config s ch 20000000 1500000 =
      (Inr (), snd (sunxi_pwm_set_config s ch 20000000 1500000))"
    using f(1) by (simp add: prod_eq_iff)
  with sel per have "\<exists>s'. sunxi_pwm_set_config s ch 20000000 1500000 = (Inr (), s') \<and>
       prescaler_field ch (ctrl (reg s')) = 0 \<and>
       ch_period (reg s') ! unat ch = push_bit 16 (4000 - 1) + (300 AND 0xFFFF)"
    by blast
  with t fit show ?thesis by simp
qed

theorem set_config_servo_example_witness:
  "initialized \<lparr>sunxi_pwm_base_address = 0x1000,
        reg = \<lparr>ctrl = 0, ch_period = [0, 0]\<rparr>, accesses = []\<rparr> \<and>
   wf_reg \<lparr>sunxi_pwm_base_address = 0x1000,
        reg = \<lparr>ctrl = 0, ch_period = [0, 0]\<rparr>, accesses = []\<rparr> \<and>
   (0 :: u32) < 2 \<and>
   sunxi_pwm_set_config \<lparr>sunxi_pwm_base_address = 0x1000,
        reg = \<lparr>ctrl = 0, ch_period = [0, 0]\<rparr>, accesses = []\<rparr> 0 20000000 1500000 =
     (Inr (), \<lparr>sunxi_pwm_base_address = 0x1000,
        reg = \<lparr>ctrl = 0, ch_period = [0xF9F012C, 0]\<rparr>,
        accesses = [Read_ctrl, Read_ctrl, Write_ctrl 0, Read_ctrl, Write_ctrl 0,
          Read_ctrl, Write_ctrl 0, Write_ch_period 0 0xF9F012C]\<rparr>) \<and>
   prescaler_field 0 0 = 0 \<and>
   (0xF9F012C :: u32) = push_bit 16 (4000 - 1) + (300 AND 0xFFFF)"
proof -
  have h1: "initialized \<lparr>sunxi_pwm_base_address = 0x1000,
        reg = \<lparr>ctrl = 0, ch_period = [0, 0]\<rparr>, accesses = []\<rparr>"
    by (simp add: initialized_def)
  have h2: "wf_reg \<lparr>sunxi_pwm_base_address = 0x1000,
        reg = \<lparr>ctrl = 0, ch_period = [0, 0]\<rparr>, accesses = []\<rparr>"
    by (simp add: wf_reg_def)
  have h3: "(0 :: u32) < 2" by simp
  from set_config_servo_example [OF h1 h2 h3] h1 h2 h3
  show ?thesis
    by (simp add: sunxi_pwm_set_config_def servo_loop Let_def load_ctrl_def store_ctrl_def
        store_ch_period_def ctrl_or_def ctrl_and_def SUNXI_PWM_CLK_GATING_def
        SUNXI_PWM_PRESCALAR_def prescaler_field_def)
qed

text \<open>
  Claim C6 as stated fails: at divisor 120 the tick count for a period of
  20000000 ns is 4000, not 4000000; it passes the test \<open>div - 1 <= 0xFFFF\<close>, and the
  loop stops at index 0.
\<close>

theorem servo_example_stays_at_divisor_120:
  "prescaler_table ! 0 = 120 \<and>
   period_ticks 120 20000000 = 4000 \<and>
   period_ticks 120 20000000 \<noteq> 4000000 \<and>
   period_ticks 120 20000000 - 1 \<le> 0xFFFF \<and>
   prescaler_loop 0 20000000 None = (0, Some 4000)"
  by (simp add: prescaler_loop.simps [of 0] prescaler_table_def period_ticks_def)

lemma bit_low16_int: "bit (65535 :: int) k \<longleftrightarrow> k < 16"
proof -
  have "(65535 :: int) = mask 16" by (simp add: mask_eq_exp_minus_1)
  then show ?thesis by (simp only: bit_mask_iff) simp
qed

lemma bit_below_16: "(a :: u32) \<le> 0xFFFF \<Longrightarrow> bit a k \<Longrightarrow> k < 16"
proof -
  assume le: "a \<le> 0xFFFF" and b: "bit a k"
  from le have "unat a < 2 ^ 16" by (simp add: word_le_nat_alt)
  then have "a < 2 ^ 16" by (simp add: word_less_nat_alt)
  then have "a AND mask 16 = a" by (rule less_mask_eq)
  with b have "bit (a AND mask 16) k" by simp
  then show "k < 16" by (simp add: bit_simps)
qed

lemma pack_is_or:
  "push_bit 16 a + (b AND 0xFFFF) = push_bit 16 a OR (b AND 0xFFFF)" for a b :: u32
  by (rule disjunctive_add) (auto simp: bit_simps bit_low16_int)

lemma pack_high:
  fixes a b :: u32
  assumes "a \<le> 0xFFFF"
  shows "drop_bit 16 (push_bit 16 a + (b AND 0xFFFF)) = a"
proof (rule bit_eqI)
  fix n
  show "bit (drop_bit 16 (push_bit 16 a + (b AND 0xFFFF))) n = bit a n"
    using bit_below_16 [OF assms, of n]
    by (auto simp: pack_is_or bit_simps bit_low16_int)
qed

lemma pack_low:
  "(push_bit 16 a + (b AND 0xFFFF)) AND 0xFFFF = b AND 0xFFFF" for a b :: u32
  by (rule bit_eqI) (auto simp: pack_is_or bit_simps bit_low16_int)

lemma ticks_low:
  assumes "(t :: u64) - 1 \<le> 0xFFFF"
  shows "(ucast t :: u32) - 1 \<le> 0xFFFF"
proof -
  define n where "n = unat (t - 1)"
  from assms have n: "n \<le> 65535" by (simp add: n_def word_le_nat_alt)
  have "t = (t - 1) + 1" by simp
  also have "t - 1 = of_nat n" by (simp add: n_def)
  finally have t: "t = of_nat (Suc n)" by simp
  have "(ucast t :: u32) = of_nat (Suc n)"
  proof -
    from n have "Suc n < 2 ^ 64" by simp
    then have "take_bit 64 (Suc n) = Suc n" by (rule take_bit_nat_eq_self)
    then show ?thesis by (simp only: t unsigned_of_nat) simp
  qed
  then have "(ucast t :: u32) - 1 = of_nat n" by simp
  moreover from n have "unat (of_nat n :: u32) = n"
    by (simp add: unat_of_nat)
  ultimately show ?thesis using n by (simp add: word_le_nat_alt)
qed


text \<open>
  Claim C7. For channel 0 or 1 the enable mask is exactly bit \<open>4 + 15 * ch\<close>, the
  active-state mask bit \<open>5 + 15 * ch\<close>, the clock-gating mask bit \<open>6 + 15 * ch\<close>, and
  the prescaler selector is shifted to bit offset \<open>15 * ch\<close>, its field mask \<open>0x0F\<close>
  covering the four bits from there. After a successful set_config the period
  register of the channel holds \<open>period ticks - 1\<close> (a 16-bit value) in bits 31 to
  16 and the low 16 bits of the duty ticks in bits 15 to 0, and the prescaler field
  holds the selected index.
\<close>

theorem register_layout:
  assumes "initialized s" and "wf_reg s" and "ch < 2"
    and "sunxi_pwm_set_config s ch period_ns duty_ns = (Inr (), s')"
  shows "SUNXI_PWM_EN ch = 2 ^ (4 + 15 * unat ch) \<and>
    SUNXI_PWM_ACT_STATE ch = 2 ^ (5 + 15 * unat ch) \<and>
    SUNXI_PWM_CLK_GATING ch = 2 ^ (6 + 15 * unat ch) \<and>
    (\<forall>v n. bit (SUNXI_PWM_PRESCALAR ch v) n \<longleftrightarrow>
       15 * unat ch \<le> n \<and> n < 32 \<and> bit v (n - 15 * unat ch)) \<and>
    (\<forall>n. bit (SUNXI_PWM_PRESCALAR ch 0x0F) n \<longleftrightarrow>
       15 * unat ch \<le> n \<and> n < 15 * unat ch + 4) \<and>
    (\<exists>pr ticks. prescaler_loop 0 period_ns None = (pr, Some ticks) \<and>
       prescaler_field ch (ctrl (reg s')) = pr \<and>
       (ucast ticks - 1 :: u32) \<le> 0xFFFF \<and>
       drop_bit 16 (ch_period (reg s') ! unat ch) = ucast ticks - 1 \<and>
       ch_period (reg s') ! unat ch AND 0xFFFF =
         ucast ((ticks * duty_ns) div period_ns) AND 0xFFFF)"
proof -
  obtain pr r where loop: "prescaler_loop 0 period_ns None = (pr, r)"
    by (cases "prescaler_loop 0 period_ns None")
  from assms(1) have base: "sunxi_pwm_base_address s \<noteq> 0"
    by (simp add: initialized_def)
  from set_config_success_break [OF base assms(4) loop] have lt: "pr < 0x0F" .
  from loop_break [OF loop lt]
  have fit: "entry_fits (unat pr) period_ns"
    and r: "r = Some (period_ticks (prescaler_table ! unat pr) period_ns)" by simp_all
  from fit have "(ucast (period_ticks (prescaler_table ! unat pr) period_ns) - 1 :: u32)
      \<le> 0xFFFF"
    by (intro ticks_low) (simp add: entry_fits_def)
  note hi = this pack_high [OF this]
  from assms(4) have s': "s' = snd (sunxi_pwm_set_config s ch period_ns duty_ns)" by simp
  note f = set_config_break_fields [OF base assms(3) loop lt, of duty_ns]
  have sel: "prescaler_field ch (ctrl (reg s')) = pr"
    by (simp add: s' f(2) ctrl_after_config_selector [OF assms(3) lt]
        ctrl_after_config_selector_gated [OF assms(3) lt])
  from assms(2,3) have "unat ch < length (ch_period (reg s))"
    by (simp add: wf_reg_def word_less_nat_alt)
  then have per: "ch_period (reg s') ! unat ch =
      push_bit 16 (ucast (period_ticks (prescaler_table ! unat pr) period_ns) - 1) +
      (ucast ((period_ticks (prescaler_table ! unat pr) period_ns * duty_ns) div period_ns)
         AND 0xFFFF)"
    by (simp add: s' f(3))
  have fields: "\<exists>pr ticks. prescaler_loop 0 period_ns None = (pr, Some ticks) \<and>
       prescaler_field ch (ctrl (reg s')) = pr \<and>
       (ucast ticks - 1 :: u32) \<le> 0xFFFF \<and>
       drop_bit 16 (ch_period (reg s') ! unat ch) = ucast ticks - 1 \<and>
       ch_period (reg s') ! unat ch AND 0xFFFF =
         ucast ((ticks * duty_ns) div period_ns) AND 0xFFFF"
    using loop r sel hi by (simp add: per pack_low)
  have field_mask: "\<forall>n. bit (SUNXI_PWM_PRESCALAR ch 0x0F) n \<longleftrightarrow>
       15 * unat ch \<le> n \<and> n < 15 * unat ch + 4"
    using unat_ch_less [OF assms(3)]
    by (auto simp: bit_PRESCALAR [OF assms(3)] bit_fifteen_int)
  from fields field_mask show ?thesis
    by (simp add: EN_pow ACT_STATE_pow CLK_GATING_pow bit_PRESCALAR assms(3))
qed

theorem register_layout_witness:
  "initialized \<lparr>sunxi_pwm_base_address = 0x1000,
        reg = \<lparr>ctrl = 0, ch_period = [0, 0]\<rparr>, accesses = []\<rparr> \<and>
   wf_reg \<lparr>sunxi_pwm_base_address = 0x1000,
        reg = \<lparr>ctrl = 0, ch_period = [0, 0]\<rparr>, accesses = []\<rparr> \<and>
   (1 :: u32) < 2 \<and>
   sunxi_pwm_set_config \<lparr>sunxi_pwm_base_address = 0x1000,
        reg = \<lparr>ctrl = 0, ch_period = [0, 0]\<rparr>, accesses = []\<rparr> 1 2000000 500000 =
     (Inr (), \<lparr>sunxi_pwm_base_address = 0x1000,
        reg = \<lparr>ctrl = 0, ch_period = [0, 0x18F0064]\<rparr>,
        accesses = [Read_ctrl, Read_ctrl, Write_ctrl 0, Read_ctrl, Write_ctrl 0,
          Read_ctrl, Write_ctrl 0, Write_ch_period 1 0x18F0064]\<rparr>) \<and>
   SUNXI_PWM_EN 1 = 2 ^ (4 + 15 * unat (1 :: u32)) \<and>
   SUNXI_PWM_ACT_STATE 1 = 2 ^ (5 + 15 * unat (1 :: u32)) \<and>
   SUNXI_PWM_CLK_GATING 1 = 2 ^ (6 + 15 * unat (1 :: u32)) \<and>
   prescaler_loop 0 2000000 None = (0, Some 400) \<and>
   drop_bit 16 (0x18F0064 :: u32) = 399 \<and>
   (0x18F0064 :: u32) AND 0xFFFF = 100"
proof -
  have h1: "initialized \<lparr>sunxi_pwm_base_address = 0x1000,
        reg = \<lparr>ctrl = 0, ch_period = [0, 0]\<rparr>, accesses = []\<rparr>"
    by (simp add: initialized_def)
  have h2: "wf_reg \<lparr>sunxi_pwm_base_address = 0x1000,
        reg = \<lparr>ctrl = 0, ch_period = [0, 0]\<rparr>, accesses = []\<rparr>"
    by (simp add: wf_reg_def)
  have h3: "(1 :: u32) < 2" by simp
  have loop: "prescaler_loop 0 2000000 None = (0, Some 400)"
    by (simp add: prescaler_loop.simps [of 0] prescaler_table_def period_ticks_def)
  have h4: "sunxi_pwm_set_config \<lparr>sunxi_pwm_base_address = 0x1000,
        reg = \<lparr>ctrl = 0, ch_period = [0, 0]\<rparr>, accesses = []\<rparr> 1 2000000 500000 =
     (Inr (), \<lparr>sunxi_pwm_base_address = 0x1000,
        reg = \<lparr>ctrl = 0, ch_period = [0, 0x18F0064]\<rparr>,
        accesses = [Read_ctrl, Read_ctrl, Write_ctrl 0, Read_ctrl, Write_ctrl 0,
          Read_ctrl, Write_ctrl 0, Write_ch_period 1 0x18F0064]\<rparr>)"
    by (simp add: sunxi_pwm_set_config_def loop Let_def load_ctrl_def store_ctrl_def
        store_ch_period_def ctrl_or_def ctrl_and_def SUNXI_PWM_CLK_GATING_def
        SUNXI_PWM_PRESCALAR_def)
  from register_layout [OF h1 h2 h3 h4] h1 h2 h3 h4 loop
  show ?thesis by simp
qed

end
